theory Spec2Isabelle
  imports Main "HOL-Library.Word" "HOL-Library.List_Lexorder"
begin

section \<open>The session transaction state of session/txn.go\<close>

text \<open>
  The development embeds \<^verbatim>\<open>session/txn.go\<close>: the lazy transaction wrapper
  \<^verbatim>\<open>TxnState\<close>, the transaction future \<^verbatim>\<open>txnFuture\<close>, and the statement
  commit protocol \<^verbatim>\<open>StmtCommit\<close> / \<^verbatim>\<open>StmtRollback\<close>.

  Conventions of the embedding.
  \<^item> A Go \<^verbatim>\<open>error\<close> is an \<open>error option\<close>; \<open>None\<close> is \<^verbatim>\<open>nil\<close>.
  \<^item> A Go pair \<^verbatim>\<open>(value, error)\<close> is a pair; nothing relates its two halves.
  \<^item> A nilable interface or pointer is an \<open>option\<close>; calling a method on \<open>None\<close>
    is the run-time panic \<open>Panic\<close>.
  \<^item> A byte slice is a \<open>byte list\<close>; the nil slice and the empty slice are both \<open>[]\<close>
    (the source only ever asks for their length).
  \<^item> Calls that reach a collaborator and change it (the underlying transaction, the
    store, the logger) are listed, in order, in the \<open>event list\<close> each operation returns.
\<close>

subsection \<open>Values, errors, outcomes\<close>

type_synonym byte = "8 word"
type_synonym bytes = "byte list"
type_synonym Key = "byte list"

text \<open>
  \<open>ErrorsNew msg\<close> is the value of \<^verbatim>\<open>errors.New(msg)\<close>, \<open>ErrNotExist\<close> is
  \<^verbatim>\<open>kv.ErrNotExist\<close>, and \<open>ErrOther n\<close> stands for any other error value a
  collaborator may hand back.
\<close>

datatype error = ErrorsNew string | ErrNotExist | ErrOther nat

datatype 'a outcome = Return 'a | Panic

text \<open>
  \<^verbatim>\<open>errors.Trace\<close> attaches a stack to a non-nil error and maps \<^verbatim>\<open>nil\<close> to
  \<^verbatim>\<open>nil\<close>; the error value it wraps is unchanged, and the model identifies the two.
\<close>

definition Trace :: "error option \<Rightarrow> error option" where
  "Trace err = err"

text \<open>
  Modelled from the spec: \<^verbatim>\<open>kv.IsErrNotFound\<close> is not among the source files; the
  spec's \<^verbatim>\<open>NotFound\<close> kind is the error \<^verbatim>\<open>kv.ErrNotExist\<close> that \<^verbatim>\<open>Get\<close> itself returns.
\<close>

definition IsErrNotFound :: "error option \<Rightarrow> bool" where
  "IsErrNotFound err = (err = Some ErrNotExist)"

datatype event =
    TxnCommit
  | TxnRollback
  | TxnSet Key bytes
  | TxnDelete Key
  | TxnSetCap int
  | FutureWait
  | StoreBegin
  | StoreBeginWithStartTS "64 word"
  | LogError error
  | LogErrorf string

subsection \<open>The replication mutation and its merge\<close>

text \<open>
  \<^verbatim>\<open>binlog.TableMutation\<close> is declared in another repository; the record lists the
  fields \<^verbatim>\<open>mergeToMutation\<close> and \<^verbatim>\<open>getBinlogMutation\<close> touch. A mutation type of the
  sequence is a number.
\<close>

record TableMutation =
  TableId :: int
  InsertedRows :: "bytes list"
  UpdatedRows :: "bytes list"
  DeletedIds :: "int list"
  DeletedPks :: "bytes list"
  DeletedRows :: "bytes list"
  Sequence :: "nat list"

definition mergeToMutation :: "TableMutation \<Rightarrow> TableMutation \<Rightarrow> TableMutation" where
  "mergeToMutation m1 m2 =
     m1\<lparr>InsertedRows := InsertedRows m1 @ InsertedRows m2,
        UpdatedRows := UpdatedRows m1 @ UpdatedRows m2,
        DeletedIds := DeletedIds m1 @ DeletedIds m2,
        DeletedPks := DeletedPks m1 @ DeletedPks m2,
        DeletedRows := DeletedRows m1 @ DeletedRows m2,
        Sequence := Sequence m1 @ Sequence m2\<rparr>"

text \<open>The zero mutation \<^verbatim>\<open>binlog.TableMutation{TableId: tableID}\<close>.\<close>

definition newTableMutation :: "int \<Rightarrow> TableMutation" where
  "newTableMutation tableID =
     \<lparr>TableId = tableID, InsertedRows = [], UpdatedRows = [], DeletedIds = [],
      DeletedPks = [], DeletedRows = [], Sequence = []\<rparr>"

subsection \<open>The write overlay\<close>

text \<open>
  Modelled from the spec: \<^verbatim>\<open>kv.MemBuffer\<close>, \<^verbatim>\<open>kv.NewMemDbBuffer\<close> and
  \<^verbatim>\<open>kv.WalkMemBuffer\<close> belong to package \<^verbatim>\<open>kv\<close>, which is not among the source
  files. The spec describes the overlay as an ordered key-value buffer with get, set and
  delete, in which a delete is a tombstone: the key is present with the empty value. The
  model is the list of the entries in key order, one entry per key; every write succeeds.
\<close>

type_synonym MemBuffer = "(Key \<times> bytes) list"

fun membuf_put :: "Key \<Rightarrow> bytes \<Rightarrow> MemBuffer \<Rightarrow> MemBuffer" where
  "membuf_put k v [] = [(k, v)]"
| "membuf_put k v ((k', v') # es) =
     (if k < k' then (k, v) # (k', v') # es
      else if k = k' then (k, v) # es
      else (k', v') # membuf_put k v es)"

definition NewMemDbBuffer :: "MemBuffer" where
  "NewMemDbBuffer = []"

definition membuf_Get :: "MemBuffer \<Rightarrow> Key \<Rightarrow> bytes \<times> error option" where
  "membuf_Get b k = (case map_of b k of None \<Rightarrow> ([], Some ErrNotExist) | Some v \<Rightarrow> (v, None))"

definition membuf_Set :: "MemBuffer \<Rightarrow> Key \<Rightarrow> bytes \<Rightarrow> error option \<times> MemBuffer" where
  "membuf_Set b k v = (None, membuf_put k v b)"

definition membuf_Delete :: "MemBuffer \<Rightarrow> Key \<Rightarrow> error option \<times> MemBuffer" where
  "membuf_Delete b k = (None, membuf_put k [] b)"

definition membuf_Len :: "MemBuffer \<Rightarrow> nat" where
  "membuf_Len b = length b"

definition membuf_Reset :: "MemBuffer \<Rightarrow> MemBuffer" where
  "membuf_Reset b = []"

text \<open>
  \<^verbatim>\<open>kv.WalkMemBuffer(buf, f)\<close> calls \<open>f\<close> on every entry in key order and stops at
  the first error, which it returns traced. The callback works on the state \<open>a\<close> and
  may panic.
\<close>

fun WalkMemBuffer ::
  "MemBuffer \<Rightarrow> (Key \<Rightarrow> bytes \<Rightarrow> 'a \<Rightarrow> error option outcome \<times> 'a) \<Rightarrow> 'a
     \<Rightarrow> error option outcome \<times> 'a" where
  "WalkMemBuffer [] f a = (Return None, a)"
| "WalkMemBuffer ((k, v) # es) f a =
     (case f k v a of
        (Panic, a') \<Rightarrow> (Panic, a')
      | (Return (Some err), a') \<Rightarrow> (Return (Trace (Some err)), a')
      | (Return None, a') \<Rightarrow> WalkMemBuffer es f a')"

subsection \<open>The underlying transaction and the store\<close>

text \<open>
  \<^verbatim>\<open>kv.Transaction\<close> is an interface of package \<^verbatim>\<open>kv\<close>: the code only calls it.
  Its implementation is a parameter of the model: a state type \<open>'s\<close> and one function
  per method the source calls. \<^verbatim>\<open>Valid\<close> and \<^verbatim>\<open>Get\<close> read the state; the others
  return the state they leave behind.
\<close>

record 's txn_ops =
  txn_Valid :: "'s \<Rightarrow> bool"
  txn_Get :: "'s \<Rightarrow> Key \<Rightarrow> bytes \<times> error option"
  txn_Set :: "'s \<Rightarrow> Key \<Rightarrow> bytes \<Rightarrow> error option \<times> 's"
  txn_Delete :: "'s \<Rightarrow> Key \<Rightarrow> error option \<times> 's"
  txn_Commit :: "'s \<Rightarrow> error option \<times> 's"
  txn_Rollback :: "'s \<Rightarrow> error option \<times> 's"
  txn_SetCap :: "'s \<Rightarrow> int \<Rightarrow> 's"

text \<open>
  \<^verbatim>\<open>kv.Storage\<close>, in the same way: what \<^verbatim>\<open>BeginWithStartTS\<close> and \<^verbatim>\<open>Begin\<close> return.
\<close>

record 's kvStorage =
  BeginWithStartTS :: "64 word \<Rightarrow> 's option \<times> error option"
  Begin :: "'s option \<times> error option"

subsection \<open>The transaction future\<close>

text \<open>
  The field \<open>future\<close> holds what \<^verbatim>\<open>tf.future.Wait()\<close> returns: a start timestamp and
  an error.
\<close>

record 's txnFuture =
  future :: "64 word \<times> error option"
  store :: "'s kvStorage"
  mockFail :: bool

definition wait :: "'s txnFuture \<Rightarrow> ('s option \<times> error option) \<times> event list" where
  "wait tf =
     (if mockFail tf then ((None, Some (ErrorsNew ''mock get timestamp fail'')), [])
      else
        (let (startTS, err) = future tf in
         if Option.is_none err
         then (BeginWithStartTS (store tf) startTS, [FutureWait, StoreBeginWithStartTS startTS])
         else (Begin (store tf), [FutureWait, StoreBegin])))"

subsection \<open>The state machine\<close>

type_synonym Datum = nat

record dirtyTableOperation =
  kind :: int
  tid :: int
  handle :: int
  row :: "Datum list"

text \<open>
  The record is a \<^verbatim>\<open>TxnState\<close> on which \<^verbatim>\<open>init\<close> has run: \<open>buf\<close> is the buffer
  \<^verbatim>\<open>init\<close> installs (no method of the file sets it to nil again). The map
  \<open>mutations\<close> is the list of its entries, one per table id; a loop over the map visits
  them in the order of the list.
\<close>

record 's TxnState =
  Transaction :: "'s option"
  txnFuture :: "'s txnFuture option"
  buf :: MemBuffer
  mutations :: "(int \<times> TableMutation) list"
  dirtyTableOP :: "dirtyTableOperation list"
  doNotCommit :: "error option"

definition init :: "'s TxnState \<Rightarrow> 's TxnState" where
  "init st = st\<lparr>buf := NewMemDbBuffer, mutations := []\<rparr>"

text \<open>The zero value of the struct, after \<^verbatim>\<open>init\<close>.\<close>

definition newTxnState :: "'s TxnState" where
  "newTxnState =
     init \<lparr>Transaction = None, txnFuture = None, buf = [], mutations = [],
           dirtyTableOP = [], doNotCommit = None\<rparr>"

definition Valid :: "'s txn_ops \<Rightarrow> 's TxnState \<Rightarrow> bool" where
  "Valid ops st = (case Transaction st of None \<Rightarrow> False | Some t \<Rightarrow> txn_Valid ops t)"

definition pending :: "'s TxnState \<Rightarrow> bool" where
  "pending st = (Option.is_none (Transaction st) \<and> \<not> Option.is_none (txnFuture st))"

definition validOrPending :: "'s txn_ops \<Rightarrow> 's TxnState \<Rightarrow> bool" where
  "validOrPending ops st = (\<not> Option.is_none (txnFuture st) \<or> Valid ops st)"

definition changeInvalidToValid :: "'s TxnState \<Rightarrow> 's option \<Rightarrow> 's TxnState" where
  "changeInvalidToValid st t = st\<lparr>Transaction := t, txnFuture := None\<rparr>"

definition changeInvalidToPending :: "'s TxnState \<Rightarrow> 's txnFuture option \<Rightarrow> 's TxnState" where
  "changeInvalidToPending st f = st\<lparr>Transaction := None, txnFuture := f\<rparr>"

definition changePendingToValid ::
  "'s txn_ops \<Rightarrow> 's TxnState \<Rightarrow> int \<Rightarrow> error option outcome \<times> 's TxnState \<times> event list" where
  "changePendingToValid ops st txnCap =
     (case txnFuture st of
        None \<Rightarrow> (Return (Some (ErrorsNew ''transaction future is not set'')), st, [])
      | Some f \<Rightarrow>
          (let st1 = st\<lparr>txnFuture := None\<rparr>;
               ((t, err), evs) = wait f
           in if \<not> Option.is_none err
              then (Return (Trace err), st1\<lparr>Transaction := None\<rparr>, evs)
              else (case t of
                      None \<Rightarrow> (Panic, st1, evs)
                    | Some t0 \<Rightarrow>
                        (Return None, st1\<lparr>Transaction := Some (txn_SetCap ops t0 txnCap)\<rparr>,
                         evs @ [TxnSetCap txnCap]))))"

definition changeToInvalid :: "'s TxnState \<Rightarrow> 's TxnState" where
  "changeToInvalid st = st\<lparr>Transaction := None, txnFuture := None\<rparr>"

text \<open>
  \<^verbatim>\<open>cleanup\<close> resets the buffer, deletes every key of the map, and overwrites every
  dirty operation with the zero operation before cutting the slice to length 0.
\<close>

definition emptyOperation :: "dirtyTableOperation" where
  "emptyOperation = \<lparr>kind = 0, tid = 0, handle = 0, row = []\<rparr>"

definition delete_key :: "int \<Rightarrow> (int \<times> 'v) list \<Rightarrow> (int \<times> 'v) list" where
  "delete_key key m = filter (\<lambda>e. fst e \<noteq> key) m"

definition cleanup :: "'s TxnState \<Rightarrow> 's TxnState" where
  "cleanup st =
     st\<lparr>buf := membuf_Reset (buf st),
        mutations := fold delete_key (map fst (mutations st)) (mutations st),
        dirtyTableOP := take 0 (map (\<lambda>_. emptyOperation) (dirtyTableOP st))\<rparr>"

definition reset :: "'s TxnState \<Rightarrow> 's TxnState" where
  "reset st = changeToInvalid (cleanup (st\<lparr>doNotCommit := None\<rparr>))"

text \<open>
  \<^verbatim>\<open>Commit\<close>: the body runs first; the deferred \<^verbatim>\<open>reset\<close> runs on the state the body
  leaves, also when the body panics.
\<close>

definition Commit_body ::
  "'s txn_ops \<Rightarrow> 's TxnState \<Rightarrow> error option outcome \<times> 's TxnState \<times> event list" where
  "Commit_body ops st =
     (if length (mutations st) \<noteq> 0 \<or> length (dirtyTableOP st) \<noteq> 0 \<or> membuf_Len (buf st) \<noteq> 0
      then (Return (Some (ErrorsNew ''invalid transaction'')), st,
            [LogErrorf ''The code should never run here''])
      else (case doNotCommit st of
              Some e \<Rightarrow>
                (case Transaction st of
                   None \<Rightarrow> (Panic, st, [])
                 | Some t \<Rightarrow>
                     (let (err1, t') = txn_Rollback ops t
                      in (Return (Trace (Some e)), st\<lparr>Transaction := Some t'\<rparr>,
                          TxnRollback # (case err1 of None \<Rightarrow> [] | Some e1 \<Rightarrow> [LogError e1]))))
            | None \<Rightarrow>
                (case Transaction st of
                   None \<Rightarrow> (Panic, st, [])
                 | Some t \<Rightarrow>
                     (let (err, t') = txn_Commit ops t
                      in (Return (Trace err), st\<lparr>Transaction := Some t'\<rparr>, [TxnCommit])))))"

definition Commit ::
  "'s txn_ops \<Rightarrow> 's TxnState \<Rightarrow> error option outcome \<times> 's TxnState \<times> event list" where
  "Commit ops st = (let (r, st1, evs) = Commit_body ops st in (r, reset st1, evs))"

definition Rollback_body ::
  "'s txn_ops \<Rightarrow> 's TxnState \<Rightarrow> error option outcome \<times> 's TxnState \<times> event list" where
  "Rollback_body ops st =
     (case Transaction st of
        None \<Rightarrow> (Panic, st, [])
      | Some t \<Rightarrow>
          (let (err, t') = txn_Rollback ops t
           in (Return (Trace err), st\<lparr>Transaction := Some t'\<rparr>, [TxnRollback])))"

definition Rollback ::
  "'s txn_ops \<Rightarrow> 's TxnState \<Rightarrow> error option outcome \<times> 's TxnState \<times> event list" where
  "Rollback ops st = (let (r, st1, evs) = Rollback_body ops st in (r, reset st1, evs))"

text \<open>
  \<^verbatim>\<open>Get\<close>: the lines after the overlay lookup (\<^verbatim>\<open>if err != nil\<close>,
  \<^verbatim>\<open>if len(val) == 0\<close>) are \<open>Get_rest\<close>. The method \<^verbatim>\<open>Set\<close> is \<open>Set_kv\<close> here.
\<close>

definition Get_rest :: "bytes \<Rightarrow> error option \<Rightarrow> (bytes \<times> error option) outcome" where
  "Get_rest val err =
     (if \<not> Option.is_none err then Return ([], Trace err)
      else if length val = 0 then Return ([], Some ErrNotExist)
      else Return (val, None))"

definition Get :: "'s txn_ops \<Rightarrow> 's TxnState \<Rightarrow> Key \<Rightarrow> (bytes \<times> error option) outcome" where
  "Get ops st k =
     (let (val, err) = membuf_Get (buf st) k
      in if IsErrNotFound err
         then (case Transaction st of
                 None \<Rightarrow> Panic
               | Some t \<Rightarrow>
                   (let (val', err') = txn_Get ops t k
                    in if IsErrNotFound err' then Return ([], err') else Get_rest val' err'))
         else Get_rest val err)"

definition Set_kv :: "'s TxnState \<Rightarrow> Key \<Rightarrow> bytes \<Rightarrow> error option \<times> 's TxnState" where
  "Set_kv st k v = (let (err, b) = membuf_Set (buf st) k v in (err, st\<lparr>buf := b\<rparr>))"

definition Delete :: "'s TxnState \<Rightarrow> Key \<Rightarrow> error option \<times> 's TxnState" where
  "Delete st k = (let (err, b) = membuf_Delete (buf st) k in (err, st\<lparr>buf := b\<rparr>))"

subsection \<open>The statement protocol\<close>

text \<open>
  Modelled from the spec: the \<^verbatim>\<open>session\<close> struct, \<^verbatim>\<open>binloginfo.GetPrewriteValue\<close>,
  \<^verbatim>\<open>executor.GetDirtyDB\<close> and the constants of package \<^verbatim>\<open>table\<close> are not among the
  source files. The session holds the state machine, the session-wide replication ledger
  (the \<^verbatim>\<open>Mutations\<close> of the prewrite value) and the row cache; the row cache is the list
  of the calls it has received. The three operation kinds are distinct constants.
\<close>

datatype dirty_call =
    AddRow int int "Datum list"
  | DeleteRow int int
  | TruncateTable int

record 's session =
  txn :: "'s TxnState"
  binMutations :: "TableMutation list"
  dirtyDB :: "dirty_call list"

definition DirtyTableAddRow :: int where
  "DirtyTableAddRow = 0"

definition DirtyTableDeleteRow :: int where
  "DirtyTableDeleteRow = 1"

definition DirtyTableTruncate :: int where
  "DirtyTableTruncate = 2"

fun getBinlogMutation_loop :: "TableMutation list \<Rightarrow> int \<Rightarrow> nat \<Rightarrow> nat option" where
  "getBinlogMutation_loop [] tableID i = None"
| "getBinlogMutation_loop (m # ms) tableID i =
     (if TableId m = tableID then Some i else getBinlogMutation_loop ms tableID (Suc i))"

text \<open>
  \<^verbatim>\<open>getBinlogMutation\<close> returns a pointer into \<^verbatim>\<open>bin.Mutations\<close>: here the index,
  with the list as it is after a possible append.
\<close>

definition getBinlogMutation :: "TableMutation list \<Rightarrow> int \<Rightarrow> nat \<times> TableMutation list" where
  "getBinlogMutation ms tableID =
     (case getBinlogMutation_loop ms tableID 0 of
        Some i \<Rightarrow> (i, ms)
      | None \<Rightarrow> (length ms, ms @ [newTableMutation tableID]))"

definition mergeToDirtyDB :: "dirty_call list \<Rightarrow> dirtyTableOperation \<Rightarrow> dirty_call list" where
  "mergeToDirtyDB db op =
     (if kind op = DirtyTableAddRow then db @ [AddRow (tid op) (handle op) (row op)]
      else if kind op = DirtyTableDeleteRow then db @ [DeleteRow (tid op) (handle op)]
      else if kind op = DirtyTableTruncate then db @ [TruncateTable (tid op)]
      else db)"

text \<open>The callback \<^verbatim>\<open>StmtCommit\<close> hands to the walk; \<open>count\<close> stays 0.\<close>

definition drain_entry ::
  "'s txn_ops \<Rightarrow> Key \<Rightarrow> bytes \<Rightarrow> 's TxnState \<times> event list
     \<Rightarrow> error option outcome \<times> 's TxnState \<times> event list" where
  "drain_entry ops k v w =
     (let (st, evs) = w; count = (0 :: int)
      in if count > 3 then (Return (Some (ErrorsNew ''mock stmt commit error'')), w)
         else (case Transaction st of
                 None \<Rightarrow> (Panic, w)
               | Some t \<Rightarrow>
                   if length v = 0
                   then (let (err, t') = txn_Delete ops t k
                         in (Return (Trace err), st\<lparr>Transaction := Some t'\<rparr>, evs @ [TxnDelete k]))
                   else (let (err, t') = txn_Set ops t k v
                         in (Return (Trace err), st\<lparr>Transaction := Some t'\<rparr>, evs @ [TxnSet k v]))))"

definition flush_binlog :: "'s session \<Rightarrow> 's session" where
  "flush_binlog s =
     fold (\<lambda>(tableID, delta) s'.
             (let (i, ms) = getBinlogMutation (binMutations s') tableID
              in s'\<lparr>binMutations := ms[i := mergeToMutation (ms ! i) delta]\<rparr>))
          (mutations (txn s)) s"

definition flush_dirty :: "'s session \<Rightarrow> 's session" where
  "flush_dirty s =
     (if length (dirtyTableOP (txn s)) > 0
      then s\<lparr>dirtyDB := fold (\<lambda>op db. mergeToDirtyDB db op) (dirtyTableOP (txn s)) (dirtyDB s)\<rparr>
      else s)"

definition StmtCommit_body ::
  "'s txn_ops \<Rightarrow> 's session \<Rightarrow> error option outcome \<times> 's session \<times> event list" where
  "StmtCommit_body ops s =
     (let (r, st1, evs) = WalkMemBuffer (buf (txn s)) (drain_entry ops) (txn s, [])
      in (case r of
            Panic \<Rightarrow> (Panic, s\<lparr>txn := st1\<rparr>, evs)
          | Return (Some err) \<Rightarrow>
              (Return (Trace (Some err)), s\<lparr>txn := st1\<lparr>doNotCommit := Some err\<rparr>\<rparr>, evs)
          | Return None \<Rightarrow> (Return None, flush_dirty (flush_binlog (s\<lparr>txn := st1\<rparr>)), evs)))"

definition StmtCommit ::
  "'s txn_ops \<Rightarrow> 's session \<Rightarrow> error option outcome \<times> 's session \<times> event list" where
  "StmtCommit ops s =
     (let (r, s1, evs) = StmtCommit_body ops s in (r, s1\<lparr>txn := cleanup (txn s1)\<rparr>, evs))"

definition StmtRollback :: "'s session \<Rightarrow> 's session" where
  "StmtRollback s = s\<lparr>txn := cleanup (txn s)\<rparr>"

definition StmtGetMutation :: "'s session \<Rightarrow> int \<Rightarrow> TableMutation \<times> 's session" where
  "StmtGetMutation s tableID =
     (case map_of (mutations (txn s)) tableID of
        Some m \<Rightarrow> (m, s)
      | None \<Rightarrow>
          (newTableMutation tableID,
           s\<lparr>txn := (txn s)\<lparr>mutations := mutations (txn s) @ [(tableID, newTableMutation tableID)]\<rparr>\<rparr>))"

definition StmtAddDirtyTableOP ::
  "'s session \<Rightarrow> int \<Rightarrow> int \<Rightarrow> int \<Rightarrow> Datum list \<Rightarrow> 's session" where
  "StmtAddDirtyTableOP s op t h r =
     s\<lparr>txn := (txn s)\<lparr>dirtyTableOP :=
          dirtyTableOP (txn s) @ [\<lparr>kind = op, tid = t, handle = h, row = r\<rparr>]\<rparr>\<rparr>"

subsection \<open>Runs of the state machine\<close>

text \<open>
  The operations a caller may apply to a session, in any order and in any state, and the
  state they leave (also when the operation panics: the deferred calls have run). A
  reachable state is the state after a run from the fresh session. The phases are those of
  the comment in \<^verbatim>\<open>TxnState\<close>.
\<close>

datatype 's operation =
    ChangeInvalidToValid "'s option"
  | ChangeInvalidToPending "'s txnFuture option"
  | ChangePendingToValid int
  | ChangeToInvalid
  | DoCommit
  | DoRollback
  | DoSet Key bytes
  | DoDelete Key
  | DoStmtCommit
  | DoStmtRollback

definition newSession :: "'s session" where
  "newSession = \<lparr>txn = newTxnState, binMutations = [], dirtyDB = []\<rparr>"

fun step :: "'s txn_ops \<Rightarrow> 's session \<Rightarrow> 's operation \<Rightarrow> 's session" where
  "step ops s (ChangeInvalidToValid t) = s\<lparr>txn := changeInvalidToValid (txn s) t\<rparr>"
| "step ops s (ChangeInvalidToPending f) = s\<lparr>txn := changeInvalidToPending (txn s) f\<rparr>"
| "step ops s (ChangePendingToValid txnCap) =
     s\<lparr>txn := fst (snd (changePendingToValid ops (txn s) txnCap))\<rparr>"
| "step ops s ChangeToInvalid = s\<lparr>txn := changeToInvalid (txn s)\<rparr>"
| "step ops s DoCommit = s\<lparr>txn := fst (snd (Commit ops (txn s)))\<rparr>"
| "step ops s DoRollback = s\<lparr>txn := fst (snd (Rollback ops (txn s)))\<rparr>"
| "step ops s (DoSet k v) = s\<lparr>txn := snd (Set_kv (txn s) k v)\<rparr>"
| "step ops s (DoDelete k) = s\<lparr>txn := snd (Delete (txn s) k)\<rparr>"
| "step ops s DoStmtCommit = fst (snd (StmtCommit ops s))"
| "step ops s DoStmtRollback = StmtRollback s"

definition run :: "'s txn_ops \<Rightarrow> 's operation list \<Rightarrow> 's session" where
  "run ops os = foldl (step ops) newSession os"

definition phase_Invalid :: "'s TxnState \<Rightarrow> bool" where
  "phase_Invalid st = (Option.is_none (Transaction st) \<and> Option.is_none (txnFuture st))"

definition phase_Pending :: "'s TxnState \<Rightarrow> bool" where
  "phase_Pending st = (Option.is_none (Transaction st) \<and> \<not> Option.is_none (txnFuture st))"

definition phase_Valid :: "'s TxnState \<Rightarrow> bool" where
  "phase_Valid st = (\<not> Option.is_none (Transaction st) \<and> Option.is_none (txnFuture st))"

subsection \<open>An in-memory transaction\<close>

text \<open>
  A small implementation of the transaction interface, used to run the operations on
  concrete inputs: the data is a list of entries, and the three arguments are the error
  a write to a given key returns, and the errors its commit and its rollback return.
\<close>

definition mem_txn ::
  "(Key \<Rightarrow> error option) \<Rightarrow> error option \<Rightarrow> error option \<Rightarrow> MemBuffer txn_ops" where
  "mem_txn write_err commit_err rollback_err =
     \<lparr>txn_Valid = (\<lambda>t. True),
      txn_Get = (\<lambda>t k. case map_of t k of None \<Rightarrow> ([], Some ErrNotExist) | Some v \<Rightarrow> (v, None)),
      txn_Set = (\<lambda>t k v. (write_err k,
                  if Option.is_none (write_err k) then membuf_put k v t else t)),
      txn_Delete = (\<lambda>t k. (write_err k,
                     if Option.is_none (write_err k) then filter (\<lambda>e. fst e \<noteq> k) t else t)),
      txn_Commit = (\<lambda>t. (commit_err, t)),
      txn_Rollback = (\<lambda>t. (rollback_err, t)),
      txn_SetCap = (\<lambda>t c. t)\<rparr>"

definition mem_store :: "MemBuffer kvStorage" where
  "mem_store = \<lparr>BeginWithStartTS = (\<lambda>ts. (Some [], None)), Begin = (Some [], None)\<rparr>"

definition example_ops :: "MemBuffer txn_ops" where
  "example_ops =
     mem_txn (\<lambda>k. if k = [3] then Some (ErrOther 7) else None)
       (Some (ErrOther 8)) (Some (ErrOther 9))"

definition example_future :: "MemBuffer txnFuture" where
  "example_future = \<lparr>future = (5, None), store = mem_store, mockFail = False\<rparr>"

definition example_txn :: "MemBuffer TxnState" where
  "example_txn =
     \<lparr>Transaction = Some [([1], [9])], txnFuture = None, buf = [([1], [2]), ([3], [])],
      mutations = [(1, (newTableMutation 1)\<lparr>InsertedRows := [[10]]\<rparr>)],
      dirtyTableOP = [\<lparr>kind = 0, tid = 1, handle = 4, row = []\<rparr>],
      doNotCommit = None\<rparr>"

definition example_session :: "MemBuffer session" where
  "example_session = \<lparr>txn = example_txn, binMutations = [], dirtyDB = []\<rparr>"

section \<open>Properties\<close>

subsection \<open>Auxiliary facts\<close>

lemmas example_defs = example_ops_def example_future_def example_txn_def example_session_def
  mem_txn_def mem_store_def

lemma map_of_membuf_put_same: "map_of (membuf_put k v b) k = Some v"
  by (induction b) auto

lemma map_of_membuf_put_other: "k' \<noteq> k \<Longrightarrow> map_of (membuf_put k v b) k' = map_of b k'"
  by (induction b) auto

lemma fold_delete_key_empty:
  "fst ` set m \<subseteq> set ks \<Longrightarrow> fold delete_key ks m = []"
proof (induction ks arbitrary: m)
  case Nil
  then show ?case by simp
next
  case (Cons key ks)
  have "fst ` set (delete_key key m) \<subseteq> set ks"
    using Cons.prems by (auto simp: delete_key_def)
  then show ?case using Cons.IH by simp
qed

lemma cleanup_fields:
  "buf (cleanup st) = []" "mutations (cleanup st) = []" "dirtyTableOP (cleanup st) = []"
  "Transaction (cleanup st) = Transaction st" "txnFuture (cleanup st) = txnFuture st"
  "doNotCommit (cleanup st) = doNotCommit st"
  by (simp_all add: cleanup_def membuf_Reset_def fold_delete_key_empty)

lemma reset_fields:
  "buf (reset st) = []" "mutations (reset st) = []" "dirtyTableOP (reset st) = []"
  "Transaction (reset st) = None" "txnFuture (reset st) = None"
  "doNotCommit (reset st) = None"
  by (simp_all add: reset_def changeToInvalid_def cleanup_fields)

lemma Commit_state: "fst (snd (Commit ops st)) = reset (fst (snd (Commit_body ops st)))"
  by (simp add: Commit_def split: prod.splits)

lemma Rollback_state: "fst (snd (Rollback ops st)) = reset (fst (snd (Rollback_body ops st)))"
  by (simp add: Rollback_def split: prod.splits)

lemma WalkMemBuffer_append:
  "WalkMemBuffer pre f a = (Return None, a1) \<Longrightarrow>
     WalkMemBuffer (pre @ rest) f a = WalkMemBuffer rest f a1"
proof (induction pre arbitrary: a)
  case Nil
  then show ?case by simp
next
  case (Cons x pre)
  obtain k v where x: "x = (k, v)" by (cases x)
  obtain r a' where fa: "f k v a = (r, a')" by (cases "f k v a")
  from Cons.prems x fa have r: "r = Return None"
    by (auto simp: Trace_def split: outcome.splits option.splits)
  with Cons.prems x fa have "WalkMemBuffer pre f a' = (Return None, a1)" by simp
  from Cons.IH [OF this] show ?case using x fa r by simp
qed

lemma drain_entry_fails:
  assumes "Transaction st = Some t"
    and "(if length v = 0 then fst (txn_Delete ops t k) else fst (txn_Set ops t k v)) = Some e"
  shows "drain_entry ops k v (st, evs)
      = (Return (Some e),
         st\<lparr>Transaction := Some (if length v = 0 then snd (txn_Delete ops t k)
                                   else snd (txn_Set ops t k v))\<rparr>,
         evs @ [if length v = 0 then TxnDelete k else TxnSet k v])"
  using assms by (auto simp: drain_entry_def Trace_def split: prod.splits)

lemma drain_entry_frame:
  assumes "drain_entry ops k v (st, evs) = (r, st', evs')"
  shows "txnFuture st' = txnFuture st \<and> buf st' = buf st \<and> mutations st' = mutations st
         \<and> dirtyTableOP st' = dirtyTableOP st \<and> doNotCommit st' = doNotCommit st
         \<and> (Transaction st' = None \<longleftrightarrow> Transaction st = None)"
  using assms by (auto simp: drain_entry_def split: prod.splits option.splits if_splits)

lemma WalkMemBuffer_drain_frame:
  assumes "WalkMemBuffer es (drain_entry ops) (st, evs) = (r, st', evs')"
  shows "txnFuture st' = txnFuture st \<and> buf st' = buf st \<and> mutations st' = mutations st
         \<and> dirtyTableOP st' = dirtyTableOP st \<and> doNotCommit st' = doNotCommit st
         \<and> (Transaction st' = None \<longleftrightarrow> Transaction st = None)"
  using assms
proof (induction es arbitrary: st evs)
  case Nil
  then show ?case by simp
next
  case (Cons x es)
  obtain k v where x: "x = (k, v)" by (cases x)
  obtain r1 st1 evs1 where d: "drain_entry ops k v (st, evs) = (r1, st1, evs1)"
    by (cases "drain_entry ops k v (st, evs)")
  note fr = drain_entry_frame [OF d]
  show ?case
  proof (cases "r1 = Return None")
    case True
    with Cons.prems x d have "WalkMemBuffer es (drain_entry ops) (st1, evs1) = (r, st', evs')"
      by simp
    from Cons.IH [OF this] fr show ?thesis by simp
  next
    case False
    with Cons.prems x d have "st' = st1"
      by (auto split: outcome.splits option.splits)
    with fr show ?thesis by simp
  qed
qed

lemma flush_binlog_txn: "txn (flush_binlog s) = txn s"
proof -
  have "txn (fold (\<lambda>(tableID, delta) s'.
             (let (i, ms) = getBinlogMutation (binMutations s') tableID
              in s'\<lparr>binMutations := ms[i := mergeToMutation (ms ! i) delta]\<rparr>)) ds s0) = txn s0"
    for ds and s0 :: "'a session"
    by (induction ds arbitrary: s0) (auto split: prod.splits)
  then show ?thesis by (simp add: flush_binlog_def)
qed

lemma flush_dirty_txn: "txn (flush_dirty s) = txn s"
  by (simp add: flush_dirty_def)

lemma StmtCommit_body_frame:
  assumes "StmtCommit_body ops s = (r, s1, evs)"
  shows "txnFuture (txn s1) = txnFuture (txn s)
         \<and> (Transaction (txn s1) = None \<longleftrightarrow> Transaction (txn s) = None)
         \<and> (\<forall>e. r = Return (Some e) \<longrightarrow> doNotCommit (txn s1) = Some e)
         \<and> ((\<forall>e. r \<noteq> Return (Some e)) \<longrightarrow> doNotCommit (txn s1) = doNotCommit (txn s))"
proof -
  obtain r0 st1 evs0 where w: "WalkMemBuffer (buf (txn s)) (drain_entry ops) (txn s, []) = (r0, st1, evs0)"
    by (cases "WalkMemBuffer (buf (txn s)) (drain_entry ops) (txn s, [])")
  note fr = WalkMemBuffer_drain_frame [OF w]
  show ?thesis
    using assms w fr
    by (auto simp: StmtCommit_body_def Trace_def flush_binlog_txn flush_dirty_txn
        split: outcome.splits option.splits)
qed

lemma StmtCommit_txn:
  "txn (fst (snd (StmtCommit ops s))) = cleanup (txn (fst (snd (StmtCommit_body ops s))))"
  by (simp add: StmtCommit_def split: prod.splits)

lemma StmtCommit_result: "fst (StmtCommit ops s) = fst (StmtCommit_body ops s)"
  by (simp add: StmtCommit_def split: prod.splits)

lemma Commit_fault:
  assumes "doNotCommit st = Some e" and "Transaction st = Some t"
    and "buf st = []" and "mutations st = []" and "dirtyTableOP st = []"
  shows "Commit ops st
      = (Return (Some e), reset (st\<lparr>Transaction := Some (snd (txn_Rollback ops t))\<rparr>),
         TxnRollback # (case fst (txn_Rollback ops t) of None \<Rightarrow> [] | Some e1 \<Rightarrow> [LogError e1]))"
  using assms
  by (simp add: Commit_def Commit_body_def membuf_Len_def Trace_def split: prod.splits)

lemma changePendingToValid_unset:
  "txnFuture st = None \<Longrightarrow>
     changePendingToValid ops st txnCap
       = (Return (Some (ErrorsNew ''transaction future is not set'')), st, [])"
  by (simp add: changePendingToValid_def)

lemma changePendingToValid_resolved:
  "txnFuture st = Some f \<Longrightarrow> wait f = ((Some t, None), evs) \<Longrightarrow>
     changePendingToValid ops st txnCap
       = (Return None, st\<lparr>txnFuture := None, Transaction := Some (txn_SetCap ops t txnCap)\<rparr>,
          evs @ [TxnSetCap txnCap])"
  by (simp add: changePendingToValid_def)

lemma changePendingToValid_failed:
  "txnFuture st = Some f \<Longrightarrow> wait f = ((t, Some e), evs) \<Longrightarrow>
     changePendingToValid ops st txnCap
       = (Return (Some e), st\<lparr>txnFuture := None, Transaction := None\<rparr>, evs)"
  by (simp add: changePendingToValid_def Trace_def)

lemma changePendingToValid_txnFuture:
  "txnFuture (fst (snd (changePendingToValid ops st c))) = None"
proof (cases "txnFuture st")
  case None
  then show ?thesis by (simp add: changePendingToValid_def)
next
  case (Some f)
  obtain t err evs where w: "wait f = ((t, err), evs)"
    by (metis prod.collapse)
  show ?thesis using Some w
    by (cases t; cases err) (simp_all add: changePendingToValid_def)
qed

lemma step_invariant:
  assumes "Transaction (txn s) = None \<or> txnFuture (txn s) = None"
  shows "Transaction (txn (step ops s x)) = None \<or> txnFuture (txn (step ops s x)) = None"
proof (cases x)
  case (ChangePendingToValid c)
  show ?thesis using ChangePendingToValid
    by (simp add: changePendingToValid_txnFuture)
next
  case DoStmtCommit
  obtain r s1 evs where b: "StmtCommit_body ops s = (r, s1, evs)"
    by (cases "StmtCommit_body ops s")
  from StmtCommit_body_frame [OF b] assms show ?thesis
    using DoStmtCommit by (auto simp: StmtCommit_txn b cleanup_fields)
qed (use assms in \<open>auto simp: changeInvalidToValid_def changeInvalidToPending_def
      changeToInvalid_def Commit_state Rollback_state reset_fields Set_kv_def Delete_def
      StmtRollback_def cleanup_fields split: prod.splits\<close>)

lemma run_invariant:
  "Transaction (txn (run ops os)) = None \<or> txnFuture (txn (run ops os)) = None"
proof (induction os rule: rev_induct)
  case Nil
  show ?case by (simp add: run_def newSession_def newTxnState_def init_def)
next
  case (snoc x os)
  have "run ops (os @ [x]) = step ops (run ops os) x" by (simp add: run_def)
  with step_invariant [OF snoc.IH] show ?case by simp
qed

subsection \<open>Fault poisoning\<close>

text \<open>
  C1. Fault poisoning. Let the walk of \<^verbatim>\<open>StmtCommit\<close> reach the entry \<open>(k, v)\<close> after
  every earlier entry was written without error, and let the write of this entry (a
  \<^verbatim>\<open>Delete\<close> for the empty value, a \<^verbatim>\<open>Set\<close> otherwise) fail with \<open>e\<close>. Then
  \<^verbatim>\<open>StmtCommit\<close> returns \<open>e\<close> and leaves \<open>doNotCommit = e\<close>. The \<^verbatim>\<open>Commit\<close> that
  follows returns \<open>e\<close>; the calls it makes are one \<^verbatim>\<open>Rollback\<close> of the underlying
  transaction and, when that rollback fails, one log line with its error (which is not
  returned); it never calls the \<^verbatim>\<open>Commit\<close> of the underlying transaction.
\<close>

theorem fault_poisoning:
  assumes "buf (txn s) = pre @ (k, v) # post"
    and "WalkMemBuffer pre (drain_entry ops) (txn s, []) = (Return None, st1, evs1)"
    and "Transaction st1 = Some t"
    and "(if length v = 0 then fst (txn_Delete ops t k) else fst (txn_Set ops t k v)) = Some e"
  shows "fst (StmtCommit ops s) = Return (Some e)
     \<and> doNotCommit (txn (fst (snd (StmtCommit ops s)))) = Some e
     \<and> fst (Commit ops (txn (fst (snd (StmtCommit ops s))))) = Return (Some e)
     \<and> snd (snd (Commit ops (txn (fst (snd (StmtCommit ops s))))))
         = TxnRollback #
           (case fst (txn_Rollback ops (if length v = 0 then snd (txn_Delete ops t k)
                                        else snd (txn_Set ops t k v))) of
              None \<Rightarrow> [] | Some e1 \<Rightarrow> [LogError e1])
     \<and> TxnCommit \<notin> set (snd (snd (Commit ops (txn (fst (snd (StmtCommit ops s)))))))"
proof -
  let ?t' = "if length v = 0 then snd (txn_Delete ops t k) else snd (txn_Set ops t k v)"
  let ?st2 = "st1\<lparr>Transaction := Some ?t'\<rparr>"
  let ?evs2 = "evs1 @ [if length v = 0 then TxnDelete k else TxnSet k v]"
  have d: "drain_entry ops k v (st1, evs1) = (Return (Some e), ?st2, ?evs2)"
    using assms(3,4) by (rule drain_entry_fails)
  have "WalkMemBuffer (buf (txn s)) (drain_entry ops) (txn s, [])
      = WalkMemBuffer ((k, v) # post) (drain_entry ops) (st1, evs1)"
    using assms(1) WalkMemBuffer_append [OF assms(2)] by simp
  then have w: "WalkMemBuffer (buf (txn s)) (drain_entry ops) (txn s, [])
      = (Return (Some e), ?st2, ?evs2)"
    using d by (simp add: Trace_def)
  have body: "StmtCommit_body ops s
      = (Return (Some e), s\<lparr>txn := ?st2\<lparr>doNotCommit := Some e\<rparr>\<rparr>, ?evs2)"
    by (simp add: StmtCommit_body_def w Trace_def)
  have r: "fst (StmtCommit ops s) = Return (Some e)"
    by (simp add: StmtCommit_result body)
  let ?st3 = "txn (fst (snd (StmtCommit ops s)))"
  have st3: "?st3 = cleanup (?st2\<lparr>doNotCommit := Some e\<rparr>)"
    by (simp add: StmtCommit_txn body)
  have f: "doNotCommit ?st3 = Some e" "Transaction ?st3 = Some ?t'"
    "buf ?st3 = []" "mutations ?st3 = []" "dirtyTableOP ?st3 = []"
    by (simp_all add: st3 cleanup_fields)
  note c = Commit_fault [OF f, of ops]
  show ?thesis
    using r f(1) by (simp add: c split: option.splits)
qed

theorem fault_poisoning_witness:
  "fst (StmtCommit example_ops example_session) = Return (Some (ErrOther 7))
   \<and> doNotCommit (txn (fst (snd (StmtCommit example_ops example_session)))) = Some (ErrOther 7)
   \<and> fst (Commit example_ops (txn (fst (snd (StmtCommit example_ops example_session)))))
       = Return (Some (ErrOther 7))
   \<and> snd (snd (Commit example_ops (txn (fst (snd (StmtCommit example_ops example_session))))))
       = [TxnRollback, LogError (ErrOther 9)]"
proof -
  let ?st1 = "example_txn\<lparr>Transaction := Some [([1], [2])]\<rparr>"
  have h1: "buf (txn example_session) = [([1], [2])] @ ([3], []) # []"
    by (simp add: example_defs)
  have h2: "WalkMemBuffer [([1], [2])] (drain_entry example_ops) (txn example_session, [])
      = (Return None, ?st1, [TxnSet [1] [2]])"
    by (simp add: example_defs drain_entry_def Trace_def)
  have h3: "Transaction ?st1 = Some [([1], [2])]"
    by simp
  have h4: "(if length ([] :: bytes) = 0 then fst (txn_Delete example_ops [([1], [2])] [3])
             else fst (txn_Set example_ops [([1], [2])] [3] [])) = Some (ErrOther 7)"
    by (simp add: example_defs)
  from fault_poisoning [OF h1 h2 h3 h4] show ?thesis
    by (simp add: example_defs)
qed

text \<open>
  The marker is cleared by \<^verbatim>\<open>reset\<close> only: writes and statement boundaries keep a
  marker in place, and no \<^verbatim>\<open>Commit\<close> of a marked state calls the \<^verbatim>\<open>Commit\<close> of the
  underlying transaction.
\<close>

lemma Commit_marked_never_commits:
  assumes "doNotCommit st \<noteq> None"
  shows "TxnCommit \<notin> set (snd (snd (Commit ops st)))"
  using assms
  by (auto simp: Commit_def Commit_body_def split: prod.splits option.splits)

lemma marker_survives_statements:
  assumes "doNotCommit (txn s) \<noteq> None"
    and "x = DoSet k v \<or> x = DoDelete k \<or> x = DoStmtCommit \<or> x = DoStmtRollback"
  shows "doNotCommit (txn (step ops s x)) \<noteq> None"
proof -
  obtain r s1 evs where b: "StmtCommit_body ops s = (r, s1, evs)"
    by (cases "StmtCommit_body ops s")
  have "doNotCommit (txn s1) \<noteq> None"
    using StmtCommit_body_frame [OF b] assms(1) by (cases "\<exists>e. r = Return (Some e)") auto
  then have "doNotCommit (txn (fst (snd (StmtCommit ops s)))) \<noteq> None"
    by (simp add: StmtCommit_txn b cleanup_fields)
  then show ?thesis
    using assms
    by (auto simp: Set_kv_def Delete_def StmtRollback_def cleanup_fields split: prod.splits)
qed

subsection \<open>Commit with undrained buffers\<close>

text \<open>
  C2. In every state in which the overlay buffer, the mutation ledger or the
  dirty-operation log is not empty, \<^verbatim>\<open>Commit\<close> returns the error
  \<^verbatim>\<open>invalid transaction\<close>, and the only thing it does outside the state machine is to
  log: it does not call the \<^verbatim>\<open>Commit\<close> of the underlying transaction.
\<close>

theorem Commit_nonempty_invalid:
  assumes "membuf_Len (buf st) \<noteq> 0 \<or> mutations st \<noteq> [] \<or> dirtyTableOP st \<noteq> []"
  shows "fst (Commit ops st) = Return (Some (ErrorsNew ''invalid transaction''))
         \<and> snd (snd (Commit ops st)) = [LogErrorf ''The code should never run here'']
         \<and> TxnCommit \<notin> set (snd (snd (Commit ops st)))"
  using assms by (auto simp: Commit_def Commit_body_def)

theorem Commit_nonempty_invalid_witness:
  "membuf_Len (buf example_txn) = 2
   \<and> fst (Commit example_ops example_txn) = Return (Some (ErrorsNew ''invalid transaction''))
   \<and> TxnCommit \<notin> set (snd (snd (Commit example_ops example_txn)))"
proof -
  have h: "membuf_Len (buf example_txn) \<noteq> 0 \<or> mutations example_txn \<noteq> []
           \<or> dirtyTableOP example_txn \<noteq> []"
    by (simp add: example_defs membuf_Len_def)
  from Commit_nonempty_invalid [OF h] show ?thesis
    by (simp add: example_defs membuf_Len_def)
qed

subsection \<open>Commit and Rollback reset the state machine\<close>

text \<open>
  C3. The state \<open>st'\<close> that \<^verbatim>\<open>Commit\<close> or \<^verbatim>\<open>Rollback\<close> leaves has no transaction
  and no future (\<^verbatim>\<open>Valid()\<close> is false), an empty overlay, an empty mutation ledger, an
  empty dirty-operation log and no fault marker, and \<^verbatim>\<open>changeInvalidToPending\<close> makes it
  pending again. This holds whatever the underlying transaction answers: its error is
  what \<^verbatim>\<open>Rollback\<close> returns, and what \<^verbatim>\<open>Commit\<close> returns from a drained state with no
  fault marker.
\<close>

theorem Commit_Rollback_reset:
  assumes "st' = fst (snd (Commit ops st)) \<or> st' = fst (snd (Rollback ops st))"
  shows "Transaction st' = None \<and> txnFuture st' = None \<and> \<not> Valid ops st' \<and> \<not> pending st'
         \<and> membuf_Len (buf st') = 0 \<and> mutations st' = [] \<and> dirtyTableOP st' = []
         \<and> doNotCommit st' = None
         \<and> pending (changeInvalidToPending st' (Some f))
         \<and> (Transaction st = Some t \<longrightarrow> fst (Rollback ops st) = Return (Trace (fst (txn_Rollback ops t))))
         \<and> (Transaction st = Some t \<and> doNotCommit st = None \<and> membuf_Len (buf st) = 0
              \<and> mutations st = [] \<and> dirtyTableOP st = []
            \<longrightarrow> fst (Commit ops st) = Return (Trace (fst (txn_Commit ops t))))"
proof -
  have r: "st' = reset (fst (snd (Commit_body ops st))) \<or> st' = reset (fst (snd (Rollback_body ops st)))"
    using assms by (simp add: Commit_state Rollback_state)
  have fields: "Transaction st' = None" "txnFuture st' = None" "buf st' = []"
    "mutations st' = []" "dirtyTableOP st' = []" "doNotCommit st' = None"
    using r by (auto simp: reset_fields)
  have rb: "Transaction st = Some t \<longrightarrow> fst (Rollback ops st) = Return (Trace (fst (txn_Rollback ops t)))"
    by (simp add: Rollback_def Rollback_body_def split: prod.splits)
  have cm: "Transaction st = Some t \<and> doNotCommit st = None \<and> membuf_Len (buf st) = 0
              \<and> mutations st = [] \<and> dirtyTableOP st = []
            \<longrightarrow> fst (Commit ops st) = Return (Trace (fst (txn_Commit ops t)))"
    by (simp add: Commit_def Commit_body_def split: prod.splits)
  show ?thesis
    using fields rb cm
    by (simp add: Valid_def pending_def changeInvalidToPending_def membuf_Len_def Option.is_none_def)
qed

theorem Commit_Rollback_reset_witness:
  "fst (Commit example_ops (cleanup example_txn)) = Return (Some (ErrOther 8))
   \<and> fst (Rollback example_ops example_txn) = Return (Some (ErrOther 9))
   \<and> Transaction (fst (snd (Commit example_ops (cleanup example_txn)))) = None
   \<and> txnFuture (fst (snd (Commit example_ops (cleanup example_txn)))) = None
   \<and> buf (fst (snd (Rollback example_ops example_txn))) = []
   \<and> mutations (fst (snd (Rollback example_ops example_txn))) = []
   \<and> pending (changeInvalidToPending (fst (snd (Rollback example_ops example_txn)))
        (Some example_future))"
proof -
  have c: "fst (snd (Commit example_ops (cleanup example_txn)))
             = fst (snd (Commit example_ops (cleanup example_txn)))
           \<or> fst (snd (Commit example_ops (cleanup example_txn)))
             = fst (snd (Rollback example_ops (cleanup example_txn)))"
    by simp
  have r: "fst (snd (Rollback example_ops example_txn))
             = fst (snd (Commit example_ops example_txn))
           \<or> fst (snd (Rollback example_ops example_txn))
             = fst (snd (Rollback example_ops example_txn))"
    by simp
  have t: "Transaction (cleanup example_txn) = Some [([1], [9])]"
    "doNotCommit (cleanup example_txn) = None" "Transaction example_txn = Some [([1], [9])]"
    by (simp_all add: cleanup_fields) (simp_all add: example_defs)
  from Commit_Rollback_reset [OF c, where f = example_future and t = "[([1], [9])]"]
    Commit_Rollback_reset [OF r, where f = example_future and t = "[([1], [9])]"] t
  show ?thesis
    by (simp add: cleanup_fields membuf_Len_def) (simp add: example_defs Trace_def)
qed

subsection \<open>Tombstones\<close>

text \<open>
  C4. Tombstone correctness. After \<^verbatim>\<open>Delete(k)\<close>, \<^verbatim>\<open>Get(k)\<close> returns the not-found
  error \<^verbatim>\<open>kv.ErrNotExist\<close>, for every underlying transaction and whatever it holds for
  \<open>k\<close>. A key that the overlay holds with the empty value is reported as not found, and
  \<^verbatim>\<open>Get\<close> never returns the empty value without an error.
\<close>

theorem Delete_then_Get_not_found:
  "Get ops (snd (Delete st k)) k = Return ([], Some ErrNotExist)
   \<and> (membuf_Get (buf st) k = ([], None) \<longrightarrow> Get ops st k = Return ([], Some ErrNotExist))
   \<and> Get ops st k \<noteq> Return ([], None)"
proof -
  have a: "Get ops (snd (Delete st k)) k = Return ([], Some ErrNotExist)"
    by (simp add: Get_def Delete_def membuf_Delete_def membuf_Get_def map_of_membuf_put_same
        IsErrNotFound_def Get_rest_def)
  have b: "membuf_Get (buf st) k = ([], None) \<longrightarrow> Get ops st k = Return ([], Some ErrNotExist)"
    by (simp add: Get_def IsErrNotFound_def Get_rest_def)
  have rest: "Get_rest val err \<noteq> Return ([], None)" for val err
    by (simp add: Get_rest_def Option.is_none_def Trace_def)
  have c: "Get ops st k \<noteq> Return ([], None)"
    by (auto simp: Get_def rest IsErrNotFound_def split: prod.splits option.splits)
  show ?thesis using a b c by simp
qed

theorem Delete_then_Get_not_found_witness:
  "txn_Get example_ops [([1], [9])] [1] = ([9], None)
   \<and> Get example_ops (snd (Delete example_txn [1])) [1] = Return ([], Some ErrNotExist)
   \<and> membuf_Get (buf example_txn) [3] = ([], None)
   \<and> Get example_ops example_txn [3] = Return ([], Some ErrNotExist)"
proof -
  have h: "membuf_Get (buf example_txn) [3] = ([], None)"
    by (simp add: example_defs membuf_Get_def)
  from Delete_then_Get_not_found [where ops = example_ops and st = example_txn and k = "[1]"]
    Delete_then_Get_not_found [where ops = example_ops and st = example_txn and k = "[3]"] h
  show ?thesis
    by (simp add: example_defs)
qed

subsection \<open>Overlay shadowing\<close>

text \<open>
  C5. Overlay shadowing, for values that are not empty: after \<^verbatim>\<open>Set(k, v)\<close> with
  \<open>v \<noteq> []\<close>, \<^verbatim>\<open>Get(k)\<close> returns \<open>v\<close>, for every underlying transaction and whatever it
  holds for \<open>k\<close>.
\<close>

theorem Set_then_Get:
  assumes "v \<noteq> []"
  shows "Get ops (snd (Set_kv st k v)) k = Return (v, None)"
  using assms
  by (simp add: Get_def Set_kv_def membuf_Set_def membuf_Get_def map_of_membuf_put_same
      IsErrNotFound_def Get_rest_def)

theorem Set_then_Get_witness:
  "txn_Get example_ops [([1], [9])] [1] = ([9], None)
   \<and> Get example_ops (snd (Set_kv example_txn [1] [4])) [1] = Return ([4], None)"
proof -
  have h: "[4] \<noteq> ([] :: bytes)" by simp
  from Set_then_Get [OF h, where ops = example_ops and st = example_txn and k = "[1]"]
  show ?thesis
    by (simp add: example_defs)
qed

text \<open>
  For the empty value the statement fails: \<^verbatim>\<open>Get\<close> answers every empty value with
  \<^verbatim>\<open>kv.ErrNotExist\<close> (the empty value is the tombstone), so after \<^verbatim>\<open>Set(k, [])\<close> on a
  fresh valid state \<^verbatim>\<open>Get(k)\<close> does not return the value that was set.
\<close>

theorem Set_empty_then_Get_counterexample:
  "Get example_ops (snd (Set_kv (changeInvalidToValid newTxnState (Some [])) [1] [])) [1]
     = Return ([], Some ErrNotExist)
   \<and> Get example_ops (snd (Set_kv (changeInvalidToValid newTxnState (Some [])) [1] [])) [1]
     \<noteq> Return ([], None)"
  by (simp add: example_defs Get_def Set_kv_def membuf_Set_def membuf_Get_def IsErrNotFound_def
      Get_rest_def changeInvalidToValid_def newTxnState_def init_def NewMemDbBuffer_def)

subsection \<open>Phase exclusivity\<close>

text \<open>
  C6. Phase exclusivity. In the state after any run of operations from the fresh session
  (the transitions \<^verbatim>\<open>changeInvalidToValid\<close>, \<^verbatim>\<open>changeInvalidToPending\<close>,
  \<^verbatim>\<open>changePendingToValid\<close>, \<^verbatim>\<open>changeToInvalid\<close>, \<^verbatim>\<open>Commit\<close>, \<^verbatim>\<open>Rollback\<close>, and the
  reads, writes and statement boundaries between them) exactly one of the three phases
  holds: no transaction and no future, no transaction and a future, or a transaction and
  no future. A transaction and a future are never held together.
\<close>

theorem phase_exclusivity:
  "((phase_Invalid (txn (run ops os)) \<and> \<not> phase_Pending (txn (run ops os))
       \<and> \<not> phase_Valid (txn (run ops os)))
    \<or> (\<not> phase_Invalid (txn (run ops os)) \<and> phase_Pending (txn (run ops os))
       \<and> \<not> phase_Valid (txn (run ops os)))
    \<or> (\<not> phase_Invalid (txn (run ops os)) \<and> \<not> phase_Pending (txn (run ops os))
       \<and> phase_Valid (txn (run ops os))))
   \<and> \<not> (Transaction (txn (run ops os)) \<noteq> None \<and> txnFuture (txn (run ops os)) \<noteq> None)"
  using run_invariant [of ops os]
  by (auto simp: phase_Invalid_def phase_Pending_def phase_Valid_def Option.is_none_def)

theorem phase_exclusivity_witness:
  "phase_Valid (txn (run example_ops
      [ChangeInvalidToPending (Some example_future), ChangePendingToValid 16]))
   \<and> phase_Pending (txn (run example_ops [ChangeInvalidToPending (Some example_future)]))
   \<and> phase_Invalid (txn (run example_ops
      [ChangeInvalidToPending (Some example_future), ChangePendingToValid 16, DoCommit]))"
  using phase_exclusivity [where ops = example_ops
      and os = "[ChangeInvalidToPending (Some example_future), ChangePendingToValid 16]"]
  by (simp add: run_def newSession_def newTxnState_def init_def NewMemDbBuffer_def
      changeInvalidToPending_def changePendingToValid_def wait_def example_defs
      phase_Valid_def phase_Pending_def phase_Invalid_def Commit_state reset_fields)

subsection \<open>Resolving the pending future\<close>

text \<open>
  C7. \<^verbatim>\<open>changePendingToValid\<close> returns the error
  \<^verbatim>\<open>transaction future is not set\<close> and changes nothing when no future is held. When
  a future is held and its \<^verbatim>\<open>wait\<close> yields a transaction without error, the state holds
  that transaction with \<^verbatim>\<open>SetCap(txnCap)\<close> applied and no future: the phase is valid, and
  \<^verbatim>\<open>Valid()\<close> is the answer of that transaction. When \<^verbatim>\<open>wait\<close> fails, the error is
  returned and the state holds neither a transaction nor a future.
\<close>

theorem changePendingToValid_cases:
  "(txnFuture st = None \<longrightarrow>
      changePendingToValid ops st txnCap
        = (Return (Some (ErrorsNew ''transaction future is not set'')), st, []))
   \<and> (txnFuture st = Some f \<and> fst (wait f) = (Some t, None) \<longrightarrow>
        fst (changePendingToValid ops st txnCap) = Return None
        \<and> Transaction (fst (snd (changePendingToValid ops st txnCap))) = Some (txn_SetCap ops t txnCap)
        \<and> txnFuture (fst (snd (changePendingToValid ops st txnCap))) = None
        \<and> snd (snd (changePendingToValid ops st txnCap)) = snd (wait f) @ [TxnSetCap txnCap]
        \<and> Valid ops (fst (snd (changePendingToValid ops st txnCap)))
            = txn_Valid ops (txn_SetCap ops t txnCap))
   \<and> (txnFuture st = Some f \<and> snd (fst (wait f)) = Some e \<longrightarrow>
        fst (changePendingToValid ops st txnCap) = Return (Some e)
        \<and> Transaction (fst (snd (changePendingToValid ops st txnCap))) = None
        \<and> txnFuture (fst (snd (changePendingToValid ops st txnCap))) = None
        \<and> \<not> Valid ops (fst (snd (changePendingToValid ops st txnCap))))"
proof (intro conjI impI)
  assume "txnFuture st = None"
  then show "changePendingToValid ops st txnCap
        = (Return (Some (ErrorsNew ''transaction future is not set'')), st, [])"
    by (rule changePendingToValid_unset)
next
  assume a: "txnFuture st = Some f \<and> fst (wait f) = (Some t, None)"
  then have w: "wait f = ((Some t, None), snd (wait f))"
    by (metis prod.collapse)
  note r = changePendingToValid_resolved [OF conjunct1 [OF a] w, of ops txnCap]
  show "fst (changePendingToValid ops st txnCap) = Return None"
    and "Transaction (fst (snd (changePendingToValid ops st txnCap))) = Some (txn_SetCap ops t txnCap)"
    and "txnFuture (fst (snd (changePendingToValid ops st txnCap))) = None"
    and "snd (snd (changePendingToValid ops st txnCap)) = snd (wait f) @ [TxnSetCap txnCap]"
    and "Valid ops (fst (snd (changePendingToValid ops st txnCap)))
            = txn_Valid ops (txn_SetCap ops t txnCap)"
    by (simp_all add: r Valid_def)
next
  assume a: "txnFuture st = Some f \<and> snd (fst (wait f)) = Some e"
  then have w: "wait f = ((fst (fst (wait f)), Some e), snd (wait f))"
    by (metis prod.collapse)
  note r = changePendingToValid_failed [OF conjunct1 [OF a] w, of ops txnCap]
  show "fst (changePendingToValid ops st txnCap) = Return (Some e)"
    and "Transaction (fst (snd (changePendingToValid ops st txnCap))) = None"
    and "txnFuture (fst (snd (changePendingToValid ops st txnCap))) = None"
    and "\<not> Valid ops (fst (snd (changePendingToValid ops st txnCap)))"
    by (simp_all add: r Valid_def)
qed

theorem changePendingToValid_cases_witness:
  "changePendingToValid example_ops example_txn 16
     = (Return (Some (ErrorsNew ''transaction future is not set'')), example_txn, [])
   \<and> fst (wait example_future) = (Some [], None)
   \<and> fst (changePendingToValid example_ops
        (changeInvalidToPending example_txn (Some example_future)) 16) = Return None
   \<and> Transaction (fst (snd (changePendingToValid example_ops
        (changeInvalidToPending example_txn (Some example_future)) 16))) = Some []
   \<and> fst (changePendingToValid example_ops
        (changeInvalidToPending example_txn (Some (example_future\<lparr>mockFail := True\<rparr>))) 16)
       = Return (Some (ErrorsNew ''mock get timestamp fail''))
   \<and> Transaction (fst (snd (changePendingToValid example_ops
        (changeInvalidToPending example_txn (Some (example_future\<lparr>mockFail := True\<rparr>))) 16)))
       = None"
proof -
  have a: "txnFuture example_txn = None"
    by (simp add: example_defs)
  have b: "txnFuture (changeInvalidToPending example_txn (Some example_future))
             = Some example_future
           \<and> fst (wait example_future) = (Some [], None)"
    by (simp add: changeInvalidToPending_def wait_def example_defs)
  have c: "txnFuture (changeInvalidToPending example_txn
             (Some (example_future\<lparr>mockFail := True\<rparr>)))
             = Some (example_future\<lparr>mockFail := True\<rparr>)
           \<and> snd (fst (wait (example_future\<lparr>mockFail := True\<rparr>)))
             = Some (ErrorsNew ''mock get timestamp fail'')"
    by (simp add: changeInvalidToPending_def wait_def example_defs)
  from changePendingToValid_cases [where st = example_txn and ops = example_ops
      and txnCap = 16]
    changePendingToValid_cases [where st = "changeInvalidToPending example_txn (Some example_future)"
      and f = example_future and t = "[]" and ops = example_ops and txnCap = 16]
    changePendingToValid_cases [where st = "changeInvalidToPending example_txn
        (Some (example_future\<lparr>mockFail := True\<rparr>))"
      and f = "example_future\<lparr>mockFail := True\<rparr>"
      and ops = example_ops and txnCap = 16 and e = "ErrorsNew ''mock get timestamp fail''"]
    a b c
  show ?thesis
    by (simp add: example_defs)
qed

subsection \<open>The transaction future\<close>

text \<open>
  C8. \<^verbatim>\<open>txnFuture.wait\<close>. A future flagged \<^verbatim>\<open>mockFail\<close> returns the error
  \<^verbatim>\<open>mock get timestamp fail\<close> and calls neither the timestamp future nor the store.
  Otherwise, when the timestamp wait succeeds with \<open>ts\<close> the result is that of
  \<^verbatim>\<open>BeginWithStartTS(ts)\<close>, and when it fails the result is that of \<^verbatim>\<open>Begin()\<close>: the
  timestamp error is dropped.
\<close>

theorem wait_cases:
  "(mockFail tf \<longrightarrow> wait tf = ((None, Some (ErrorsNew ''mock get timestamp fail'')), []))
   \<and> (\<not> mockFail tf \<and> future tf = (ts, None) \<longrightarrow>
        wait tf = (BeginWithStartTS (store tf) ts, [FutureWait, StoreBeginWithStartTS ts]))
   \<and> (\<not> mockFail tf \<and> future tf = (ts, Some e) \<longrightarrow>
        wait tf = (Begin (store tf), [FutureWait, StoreBegin]))"
  by (simp add: wait_def)

theorem wait_cases_witness:
  "wait (example_future\<lparr>mockFail := True\<rparr>)
     = ((None, Some (ErrorsNew ''mock get timestamp fail'')), [])
   \<and> wait example_future = ((Some [], None), [FutureWait, StoreBeginWithStartTS 5])
   \<and> wait (example_future\<lparr>future := (0, Some (ErrOther 1))\<rparr>)
     = ((Some [], None), [FutureWait, StoreBegin])"
  using wait_cases [where tf = "example_future\<lparr>mockFail := True\<rparr>"]
    wait_cases [where tf = example_future and ts = 5]
    wait_cases [where tf = "example_future\<lparr>future := (0, Some (ErrOther 1))\<rparr>"
      and ts = 0 and e = "ErrOther 1"]
  by (simp add: example_defs)

subsection \<open>Mutation merge\<close>

text \<open>
  C9. Mutation merge: \<^verbatim>\<open>mergeToMutation dst src\<close> appends each of the row-delta fields
  of \<open>src\<close> (inserted rows, updated rows, deleted ids, deleted pks, deleted rows) to the
  corresponding field of \<open>dst\<close>: the result is the old field followed by the field of
  \<open>src\<close>, so the order of arrival is kept inside each field and nothing is reordered
  or removed. Merging a mutation whose inserted rows are \<open>[a, b]\<close> and then one whose
  inserted rows are \<open>[c]\<close> into the mutation of one table gives \<open>[a, b, c]\<close>.
\<close>

theorem mergeToMutation_appends:
  "InsertedRows (mergeToMutation dst src) = InsertedRows dst @ InsertedRows src
   \<and> UpdatedRows (mergeToMutation dst src) = UpdatedRows dst @ UpdatedRows src
   \<and> DeletedIds (mergeToMutation dst src) = DeletedIds dst @ DeletedIds src
   \<and> DeletedPks (mergeToMutation dst src) = DeletedPks dst @ DeletedPks src
   \<and> DeletedRows (mergeToMutation dst src) = DeletedRows dst @ DeletedRows src
   \<and> TableId (mergeToMutation dst src) = TableId dst
   \<and> InsertedRows
        (mergeToMutation
           (mergeToMutation (newTableMutation t) ((newTableMutation t)\<lparr>InsertedRows := [a, b]\<rparr>))
           ((newTableMutation t)\<lparr>InsertedRows := [c]\<rparr>)) = [a, b, c]"
  by (simp add: mergeToMutation_def newTableMutation_def)

subsection \<open>Statement commit leaves the buffers empty\<close>

text \<open>
  C10. After \<^verbatim>\<open>StmtCommit\<close>, whether the drain went through or a write failed on the
  way, the overlay buffer, the mutation ledger and the dirty-operation log are empty: the
  deferred \<^verbatim>\<open>cleanup\<close> drops the entries that were not drained. When \<^verbatim>\<open>StmtCommit\<close>
  returns an error, that error is the fault marker the state keeps.
\<close>

theorem StmtCommit_leaves_empty:
  "membuf_Len (buf (txn (fst (snd (StmtCommit ops s))))) = 0
   \<and> mutations (txn (fst (snd (StmtCommit ops s)))) = []
   \<and> dirtyTableOP (txn (fst (snd (StmtCommit ops s)))) = []
   \<and> (fst (StmtCommit ops s) = Return (Some e) \<longrightarrow>
        doNotCommit (txn (fst (snd (StmtCommit ops s)))) = Some e)"
proof -
  obtain r s1 evs where b: "StmtCommit_body ops s = (r, s1, evs)"
    by (cases "StmtCommit_body ops s")
  from StmtCommit_body_frame [OF b]
  have "r = Return (Some e) \<longrightarrow> doNotCommit (txn s1) = Some e" by simp
  then show ?thesis
    by (simp add: StmtCommit_txn StmtCommit_result b cleanup_fields membuf_Len_def)
qed

theorem StmtCommit_leaves_empty_witness:
  "fst (StmtCommit example_ops example_session) = Return (Some (ErrOther 7))
   \<and> buf (txn (fst (snd (StmtCommit example_ops example_session)))) = []
   \<and> mutations (txn (fst (snd (StmtCommit example_ops example_session)))) = []
   \<and> dirtyTableOP (txn (fst (snd (StmtCommit example_ops example_session)))) = []
   \<and> doNotCommit (txn (fst (snd (StmtCommit example_ops example_session)))) = Some (ErrOther 7)
   \<and> snd (snd (StmtCommit example_ops example_session)) = [TxnSet [1] [2], TxnDelete [3]]"
proof -
  have r: "StmtCommit_body example_ops example_session
      = (Return (Some (ErrOther 7)),
         example_session\<lparr>txn := example_txn\<lparr>Transaction := Some [([1], [2])],
                                               doNotCommit := Some (ErrOther 7)\<rparr>\<rparr>,
         [TxnSet [1] [2], TxnDelete [3]])"
    by (simp add: example_defs StmtCommit_body_def drain_entry_def Trace_def)
  then have h: "fst (StmtCommit example_ops example_session) = Return (Some (ErrOther 7))"
    by (simp add: StmtCommit_result)
  from StmtCommit_leaves_empty [where ops = example_ops and s = example_session
      and e = "ErrOther 7"] h r
  show ?thesis
    by (simp add: membuf_Len_def StmtCommit_def)
qed

end
